theory Spec2Isabelle
  imports Main "HOL-Library.AList"
begin

section \<open>Python values shared by the models\<close>

text \<open>
  A Python \<open>str\<close> is a sequence of Unicode code points. The fields that the endpoint
  loader reads are of type \<open>str\<close>, code points as natural numbers, since the loader
  lower-cases them; \<open>ustr\<close> gives the code points of an ASCII literal. Where strings are
  only compared and concatenated (the query executor, the registry, the harness) they are
  written as \<^typ>\<open>string\<close>. A Python \<open>dict\<close> is an association list in insertion order;
  \<open>d[k] = v\<close> is \<^const>\<open>AList.update\<close>, which overwrites the value of a key that is
  present (keeping its position) and appends a new key at the end.
\<close>

type_synonym str = "nat list"

definition ustr :: "string \<Rightarrow> str" where
  "ustr s = map of_char s"

abbreviation (input) space :: nat where "space \<equiv> 32"
abbreviation (input) hyphen :: nat where "hyphen \<equiv> 45"
abbreviation (input) underscore :: nat where "underscore \<equiv> 95"

text \<open>\<open>s.replace(old, new)\<close> for a pattern \<open>old\<close> of one character.\<close>

definition replace :: "'a \<Rightarrow> 'a list \<Rightarrow> 'a list \<Rightarrow> 'a list" where
  "replace old new s = concat (map (\<lambda>c. if c = old then new else [c]) s)"

text \<open>
  \<open>str.lower\<close> is computed from the Unicode character database, which is not part of the
  sources: the model of the loader takes it as the parameter \<open>lower\<close>. For the examples,
  \<open>lower_ascii\<close> is \<open>str.lower\<close> on text whose only characters with a lower-case form are
  the ASCII capitals; it is applied to such text only. \<open>is_upper\<close> tells the upper-case
  letters among the characters of the examples: the ASCII capitals and U+2102
  (DOUBLE-STRUCK CAPITAL C), an upper-case letter for which Unicode defines no lower-case
  form, so that \<open>str.lower\<close> leaves it as it is.
\<close>

definition lower_ascii :: "str \<Rightarrow> str" where
  "lower_ascii s = map (\<lambda>c. if 65 \<le> c \<and> c \<le> 90 then c + 32 else c) s"


text \<open>
  A raised exception is either an instance of \<open>Exception\<close> or of a class that derives from
  \<open>BaseException\<close> only (\<open>KeyboardInterrupt\<close>, \<open>SystemExit\<close>); the string is \<open>str(e)\<close>.
\<close>

datatype py_exception = Exception string | BaseException string

datatype error =
    StopIteration
  | UnpackValueError nat
  | ValueError string
  | TransportError string
  | HTTPStatusError nat
  | NameCollision string
  | KeyError string
  | UnboundLocalError
  | Propagated py_exception

text \<open>
  Python values as the harness builds them. Floating-point numbers are values of a type
  parameter \<open>'f\<close>: only their subtraction and their comparison with zero are used.
\<close>

datatype 'f pyval =
    PNone
  | PBool bool
  | PInt int
  | PFloat 'f
  | PStr string
  | PList "'f pyval list"
  | PDict "(string \<times> 'f pyval) list"

fun truthy :: "('f::zero) pyval \<Rightarrow> bool" where
  "truthy PNone = False"
| "truthy (PBool b) = b"
| "truthy (PInt i) = (i \<noteq> 0)"
| "truthy (PFloat x) = (x \<noteq> 0)"
| "truthy (PStr s) = (s \<noteq> [])"
| "truthy (PList xs) = (xs \<noteq> [])"
| "truthy (PDict kvs) = (kvs \<noteq> [])"

text \<open>\<open>sep.join(xs)\<close>.\<close>

fun join :: "string \<Rightarrow> string list \<Rightarrow> string" where
  "join sep [] = []"
| "join sep [x] = x"
| "join sep (x # y # ys) = x @ sep @ join sep (y # ys)"

section \<open>server.py: the endpoint table\<close>

text \<open>
  \<open>load_sparql_endpoints\<close> reads the rows that \<open>csv.reader\<close> yields for the file: a list of
  rows, each a list of fields. \<open>next(reader)\<close> discards the header and raises
  \<open>StopIteration\<close> on a source with no row at all. The loop unpacks every later row into
  exactly two names, which raises \<open>ValueError\<close> on a row of any other length (recorded
  with the length found), and stores the URL under the key computed from the name. The
  first argument is \<open>str.lower\<close>.
\<close>

fun load_rows ::
  "(str \<Rightarrow> str) \<Rightarrow> (str \<times> str) list \<Rightarrow> str list list \<Rightarrow> error + (str \<times> str) list" where
  "load_rows lower endpoints [] = Inr endpoints"
| "load_rows lower endpoints (row # rest) =
     (case row of
        [db_name, endpoint_url] \<Rightarrow>
          (let key = replace hyphen [] (replace space [underscore] (lower db_name))
           in load_rows lower (AList.update key endpoint_url endpoints) rest)
      | _ \<Rightarrow> Inl (UnpackValueError (length row)))"

definition load_sparql_endpoints ::
  "(str \<Rightarrow> str) \<Rightarrow> str list list \<Rightarrow> error + (str \<times> str) list" where
  "load_sparql_endpoints lower reader =
     (case reader of
        [] \<Rightarrow> Inl StopIteration
      | header # rows \<Rightarrow> load_rows lower [] rows)"

text \<open>
  The canonical key in the words of the specification: the display name lower-cased, with
  every space and every hyphen removed.
\<close>

definition spec_canonical_key :: "(str \<Rightarrow> str) \<Rightarrow> str \<Rightarrow> str" where
  "spec_canonical_key lower name = replace hyphen [] (replace space [] (lower name))"

text \<open>
  The lower-cased display name with every space turned into an underscore and every hyphen
  left out.
\<close>

definition underscore_key :: "(str \<Rightarrow> str) \<Rightarrow> str \<Rightarrow> str" where
  "underscore_key lower name =
     filter (\<lambda>c. c \<noteq> hyphen) (map (\<lambda>c. if c = space then underscore else c) (lower name))"

section \<open>server.py: the query executor\<close>

text \<open>
  The network is a function from the request sent to what comes back: a response with a
  status code and a text, or a failure of the transport. The requests issued so far are
  the only state the executor touches; the function returns them extended. \<open>client.post\<close>
  issues one \<open>POST\<close> request; \<open>raise_for_status\<close> returns on a status from 200 to 299 and
  raises on the others.
\<close>

record request =
  http_method :: string
  url :: string
  data :: "(string \<times> string) list"
  headers :: "(string \<times> string) list"

datatype reply = Response nat string | ConnectError string

definition is_success :: "nat \<Rightarrow> bool" where
  "is_success status_code = (200 \<le> status_code \<and> status_code \<le> 299)"

definition execute_sparql ::
  "(string \<times> string) list \<Rightarrow> (request \<Rightarrow> reply) \<Rightarrow> string \<Rightarrow> string \<Rightarrow> request list
     \<Rightarrow> (error + string) \<times> request list" where
  "execute_sparql SPARQL_ENDPOINT network sparql_query dbname sent =
     (case map_of SPARQL_ENDPOINT dbname of
        None \<Rightarrow> (Inl (ValueError (''Unknown database: '' @ dbname)), sent)
      | Some endpoint \<Rightarrow>
          (let req = \<lparr>http_method = ''POST'', url = endpoint,
                        data = [(''query'', sparql_query)],
                        headers = [(''Accept'', ''text/csv'')]\<rparr>;
               sent' = sent @ [req]
           in case network req of
                ConnectError msg \<Rightarrow> (Inl (TransportError msg), sent')
              | Response status_code text \<Rightarrow>
                  if is_success status_code then (Inr text, sent')
                  else (Inl (HTTPStatusError status_code), sent')))"

section \<open>server.py: generated tools and the merge into the primary server\<close>

datatype origin = HandWritten | SchemaGenerated

text \<open>
  A tool descriptor: its dispatch name, where it comes from, and what its invocation
  performs (for a generated tool, the schema operation identifier).
\<close>

record tool =
  name :: string
  origin :: origin
  operation :: string

text \<open>The rename map that \<open>server.py\<close> passes to the generator.\<close>

definition mcp_names :: "(string \<times> string) list" where
  "mcp_names =
     [(''getAllDataset'', ''togoId_getAllDataset''),
      (''getDataset'', ''togoId_getDataset''),
      (''getAllRelation'', ''togoId_getAllRelation''),
      (''getRelation'', ''togoId_getRelation''),
      (''convertId'', ''togoId_convertId''),
      (''countId'', ''togoId_countId''),
      (''getDescription'', ''togoId_getDescription'')]"

text \<open>
  Modelled from the spec: the schema-derived tool generator (\<open>FastMCP.from_openapi\<close>, a
  library that is not part of the sources). For each operation declared in the schema it
  produces one descriptor; the default name is the operation identifier, and the alternate
  name of the rename map is used instead where the map has one. The schema is given by the
  list of its operation identifiers; the result is the dictionary of the generated tools
  by name, as \<open>get_tools\<close> returns it.
\<close>

definition from_openapi :: "string list \<Rightarrow> (string \<times> string) list \<Rightarrow> (string \<times> tool) list" where
  "from_openapi openapi_spec rename_map =
     map (\<lambda>operation_id.
            let n = (case map_of rename_map operation_id of
                       Some alternate \<Rightarrow> alternate
                     | None \<Rightarrow> operation_id)
            in (n, \<lparr>name = n, origin = SchemaGenerated, operation = operation_id\<rparr>))
         openapi_spec"

text \<open>
  Modelled from the spec: \<open>register(descriptor) -> void | Error(NameCollision)\<close>, the
  registration of one descriptor (\<open>FastMCP.add_tool\<close>, a library that is not part of the
  sources), which rejects a name that is registered already.
\<close>

definition register :: "(string \<times> tool) list \<Rightarrow> tool \<Rightarrow> error + (string \<times> tool) list" where
  "register registry d =
     (if map_of registry (name d) \<noteq> None then Inl (NameCollision (name d))
      else Inr (registry @ [(name d, d)]))"

text \<open>
  The merge loop of \<open>server.py\<close>: \<open>for key in togoid_tools: mcp.add_tool(togoid_tools[key])\<close>.
  The registration of one tool is a parameter. The loop has no handler: an error of
  \<open>add_tool\<close> ends it, and the registry stays as the earlier iterations left it. The result
  is the error raised, if any, and the registry afterwards.
\<close>

fun merge_tools ::
  "('r \<Rightarrow> tool \<Rightarrow> error + 'r) \<Rightarrow> 'r \<Rightarrow> (string \<times> tool) list \<Rightarrow> error option \<times> 'r" where
  "merge_tools add_tool mcp [] = (None, mcp)"
| "merge_tools add_tool mcp ((key, t) # rest) =
     (case add_tool mcp t of
        Inl e \<Rightarrow> (Some e, mcp)
      | Inr mcp' \<Rightarrow> merge_tools add_tool mcp' rest)"

text \<open>
  Modelled from the spec: the registration without collision detection that section 9 of
  the specification ascribes to the source (\<open>FastMCP.add_tool\<close>, a library that is not part
  of the sources): the tool is stored under its name and replaces an entry of that name.
\<close>

definition add_tool_overwrite :: "(string \<times> tool) list \<Rightarrow> tool \<Rightarrow> error + (string \<times> tool) list" where
  "add_tool_overwrite registry d = Inr (AList.update (name d) d registry)"





section \<open>automated_test_runner.py: the API call and its retry wrapper\<close>

text \<open>The entries of the configuration that the two functions read.\<close>

record 'f config =
  model :: string
  max_tokens :: int
  temperature :: 'f
  retry_attempts :: int
  retry_delay :: "'f pyval"

text \<open>
  The defaults of \<open>_load_config\<close>; the floating-point value \<open>1.0\<close> of the temperature is
  the parameter.
\<close>

definition default_config :: "'f \<Rightarrow> 'f config" where
  "default_config one_point_zero =
     \<lparr>model = ''claude-sonnet-4-20250514'', max_tokens = 4000, temperature = one_point_zero,
      retry_attempts = 3, retry_delay = PInt 2\<rparr>"

datatype 'f block = TextBlock string | ToolUseBlock string "'f pyval" | OtherBlock string

record 'f response =
  content :: "'f block list"
  stop_reason :: "'f pyval"
  input_tokens :: int
  output_tokens :: int

datatype 'a outcome = Returns 'a | Raises py_exception

text \<open>
  What one call of \<open>_make_api_call\<close> meets: the two readings of the clock, and what
  \<open>client.messages.create\<close> does with the keyword arguments.
\<close>

record 'f call_env =
  start_clock :: 'f
  end_clock :: 'f
  create :: "(string \<times> 'f pyval) list \<Rightarrow> 'f response outcome"

text \<open>The loop over \<open>response.content\<close>, with its two accumulators.\<close>

fun scan_content :: "'f block list \<Rightarrow> string list \<Rightarrow> 'f pyval list \<Rightarrow> string list \<times> 'f pyval list" where
  "scan_content [] text_content tool_uses = (text_content, tool_uses)"
| "scan_content (TextBlock text # rest) text_content tool_uses =
     scan_content rest (text_content @ [text]) tool_uses"
| "scan_content (ToolUseBlock nm inp # rest) text_content tool_uses =
     scan_content rest text_content (tool_uses @ [PDict [(''name'', PStr nm), (''input'', inp)]])"
| "scan_content (OtherBlock ty # rest) text_content tool_uses =
     scan_content rest text_content tool_uses"

record 'f call_args =
  question :: string
  system_prompt :: string
  use_tools :: bool
  mcp_servers :: "'f pyval"

text \<open>The keyword arguments that \<open>_make_api_call\<close> builds for the request.\<close>

definition api_kwargs :: "('f::zero) config \<Rightarrow> 'f call_args \<Rightarrow> (string \<times> 'f pyval) list" where
  "api_kwargs cfg args =
     (let kwargs = [(''model'', PStr (model cfg)),
                    (''max_tokens'', PInt (max_tokens cfg)),
                    (''temperature'', PFloat (temperature cfg)),
                    (''system'', PStr (system_prompt args)),
                    (''messages'', PList [PDict [(''role'', PStr ''user''),
                                                 (''content'', PStr (question args))]])]
      in if use_tools args \<and> truthy (mcp_servers args)
         then AList.update ''mcp_servers'' (mcp_servers args) kwargs else kwargs)"

text \<open>
  \<open>_make_api_call\<close>: \<open>Inr\<close> is the dictionary returned, \<open>Inl\<close> an exception that leaves the
  function. The handler is \<open>except Exception\<close>.
\<close>

definition make_api_call ::
  "('f::{minus,zero}) config \<Rightarrow> 'f call_env \<Rightarrow> 'f call_args \<Rightarrow> py_exception + (string \<times> 'f pyval) list" where
  "make_api_call cfg env args =
     (let start_time = start_clock env;
          kwargs = api_kwargs cfg args
      in case create env kwargs of
           Returns response \<Rightarrow>
             (let elapsed_time = end_clock env - start_time;
                  (text_content, tool_uses) = scan_content (content response) [] []
              in Inr [(''success'', PBool True),
                      (''text'', PStr (join [CHR 0x0A] text_content)),
                      (''tool_uses'', PList tool_uses),
                      (''elapsed_time'', PFloat elapsed_time),
                      (''stop_reason'', stop_reason response),
                      (''usage'', PDict [(''input_tokens'', PInt (input_tokens response)),
                                         (''output_tokens'', PInt (output_tokens response))])])
         | Raises (Exception msg) \<Rightarrow>
             (let elapsed_time = end_clock env - start_time
              in Inr [(''success'', PBool False),
                      (''error'', PStr msg),
                      (''elapsed_time'', PFloat elapsed_time)])
         | Raises (BaseException msg) \<Rightarrow> Inl (BaseException msg))"

text \<open>
  The world of the retry wrapper: how many API calls were made (the next call meets the
  environment of that index) and what happened, in order.
\<close>

datatype 'f event = ApiCall | Print nat | Sleep "'f pyval"

record 'f world =
  calls :: nat
  events :: "'f event list"

text \<open>
  \<open>_run_with_retry\<close>: the loop over \<open>range(retry_attempts)\<close>, with the last result bound so
  far. Leaving the loop with no result bound is Python's \<open>UnboundLocalError\<close>.
\<close>

fun retry_loop ::
  "('f::{minus,zero}) config \<Rightarrow> (nat \<Rightarrow> 'f call_env) \<Rightarrow> 'f call_args \<Rightarrow> nat list
     \<Rightarrow> (string \<times> 'f pyval) list option \<Rightarrow> 'f world
     \<Rightarrow> (error + (string \<times> 'f pyval) list) \<times> 'f world" where
  "retry_loop cfg envs args [] result w =
     (case result of None \<Rightarrow> (Inl UnboundLocalError, w) | Some r \<Rightarrow> (Inr r, w))"
| "retry_loop cfg envs args (attempt # rest) result w =
     (let w1 = w\<lparr>calls := calls w + 1, events := events w @ [ApiCall]\<rparr>
      in case make_api_call cfg (envs (calls w)) args of
           Inl e \<Rightarrow> (Inl (Propagated e), w1)
         | Inr result' \<Rightarrow>
             (case map_of result' ''success'' of
                None \<Rightarrow> (Inl (KeyError ''success''), w1)
              | Some v \<Rightarrow>
                  if truthy v then (Inr result', w1)
                  else
                    (let w2 = (if int attempt < retry_attempts cfg - 1
                               then w1\<lparr>events := events w1 @ [Print (attempt + 1), Sleep (retry_delay cfg)]\<rparr>
                               else w1)
                     in retry_loop cfg envs args rest (Some result') w2)))"

definition run_with_retry ::
  "('f::{minus,zero}) config \<Rightarrow> (nat \<Rightarrow> 'f call_env) \<Rightarrow> 'f call_args \<Rightarrow> 'f world
     \<Rightarrow> (error + (string \<times> 'f pyval) list) \<times> 'f world" where
  "run_with_retry cfg envs args w =
     retry_loop cfg envs args [0..<nat (retry_attempts cfg)] None w"

text \<open>
  Vocabulary for the retry wrapper. An attempt has failed when the call returned a
  dictionary whose \<open>success\<close> is \<open>False\<close>. \<open>attempt_events\<close> is what one failed iteration
  of the loop adds to the events; \<open>retry_trace cfg k\<close> is \<open>k\<close> failed attempts, each followed
  by the notice and the sleep of \<open>retry_delay\<close>, and then one more attempt.
\<close>

definition failed_attempt :: "('f::{minus,zero}) config \<Rightarrow> 'f call_env \<Rightarrow> 'f call_args \<Rightarrow> bool" where
  "failed_attempt cfg env args =
     (case make_api_call cfg env args of
        Inr d \<Rightarrow> map_of d ''success'' = Some (PBool False)
      | Inl e \<Rightarrow> False)"

definition attempt_events :: "'f config \<Rightarrow> nat \<Rightarrow> 'f event list" where
  "attempt_events cfg a =
     ApiCall # (if int a < retry_attempts cfg - 1 then [Print (a + 1), Sleep (retry_delay cfg)] else [])"

definition retry_trace :: "'f config \<Rightarrow> nat \<Rightarrow> 'f event list" where
  "retry_trace cfg k =
     concat (map (\<lambda>i. [ApiCall, Print (i + 1), Sleep (retry_delay cfg)]) [0..<k]) @ [ApiCall]"

text \<open>
  A scenario: a question asked with the default configuration to a service that raises
  \<open>overloaded\<close> (an \<open>Exception\<close>) on its first \<open>m\<close> calls and answers afterwards. The clock
  is read as integers here.
\<close>

definition sample_args :: "int call_args" where
  "sample_args =
     \<lparr>question = ''What is UniProt?'', system_prompt = ''Answer briefly.'', use_tools = True,
      mcp_servers = PList [PDict [(''type'', PStr ''url''), (''name'', PStr ''TogoMCP'')]]\<rparr>"

definition sample_response :: "int response" where
  "sample_response =
     \<lparr>content = [TextBlock ''A protein'', ToolUseBlock ''search'' (PDict [(''q'', PStr ''uniprot'')]),
                 OtherBlock ''thinking'', TextBlock ''database.''],
      stop_reason = PStr ''end_turn'', input_tokens = 12, output_tokens = 5\<rparr>"

definition overloaded_until :: "nat \<Rightarrow> nat \<Rightarrow> int call_env" where
  "overloaded_until m i =
     \<lparr>start_clock = 10, end_clock = 12,
      create = (\<lambda>kwargs. if i < m then Raises (Exception ''overloaded'') else Returns sample_response)\<rparr>"

definition interrupted :: "int call_env" where
  "interrupted =
     \<lparr>start_clock = 10, end_clock = 12,
      create = (\<lambda>kwargs. Raises (BaseException ''KeyboardInterrupt''))\<rparr>"

section \<open>Properties of the endpoint table\<close>

lemma key_eq:
  "replace hyphen [] (replace space [underscore] s) 
     = filter (\<lambda>c. c \<noteq> hyphen) (map (\<lambda>c. if c = space then underscore else c) s)"
  by (induction s) (auto simp: replace_def)

lemma load_rows_wf:
  "\<forall>row\<in>set rows. length row = 2 \<Longrightarrow>
   load_rows lower endpoints rows
     = Inr (fold (\<lambda>row. AList.update (underscore_key lower (hd row)) (row ! 1)) rows endpoints)"
proof (induction rows arbitrary: endpoints)
  case Nil then show ?case by simp
next
  case (Cons row rows)
  then obtain n u where "row = [n, u]"
    by (cases row; cases "tl row"; cases "tl (tl row)") auto
  with Cons show ?case by (simp add: key_eq underscore_key_def)
qed

lemma load_rows_malformed:
  "row \<in> set rows \<Longrightarrow> length row \<noteq> 2 \<Longrightarrow>
   \<exists>n. n \<noteq> 2 \<and> load_rows lower endpoints rows = Inl (UnpackValueError n)"
proof (induction rows arbitrary: endpoints)
  case Nil then show ?case by simp
next
  case (Cons r rows)
  show ?case
  proof (cases "length r = 2")
    case True
    then obtain n u where r: "r = [n, u]"
      by (cases r; cases "tl r"; cases "tl (tl r)") auto
    from Cons.prems True have "row \<in> set rows" by auto
    from Cons.IH [OF this Cons.prems(2)] r show ?thesis by simp
  next
    case False
    then have "load_rows lower endpoints (r # rows) = Inl (UnpackValueError (length r))"
      by (cases r; cases "tl r"; cases "tl (tl r)") auto
    with False show ?thesis by blast
  qed
qed

text \<open>
  Claim C1 as the specification words it, with spaces removed, fails on the row
  \<open>UniProt KB\<close>: the loader stores the URL under \<open>uniprot_kb\<close>, not under \<open>uniprotkb\<close>.
\<close>

theorem load_key_spec_counterexample:
  "\<not> (load_sparql_endpoints lower_ascii
          [[ustr ''name'', ustr ''url''], [ustr ''UniProt KB'', ustr ''https://example.org/sparql'']]
        = Inr [(spec_canonical_key lower_ascii (ustr ''UniProt KB''), ustr ''https://example.org/sparql'')])"
proof -
  have "spec_canonical_key lower_ascii (ustr ''UniProt KB'') = ustr ''uniprotkb''" by code_simp
  moreover have "load_sparql_endpoints lower_ascii
      [[ustr ''name'', ustr ''url''], [ustr ''UniProt KB'', ustr ''https://example.org/sparql'']]
      = Inr [(ustr ''uniprot_kb'', ustr ''https://example.org/sparql'')]" by code_simp
  moreover have "ustr ''uniprot_kb'' \<noteq> ustr ''uniprotkb''" by code_simp
  ultimately show ?thesis by simp
qed


lemma fold_update_keys:
  "fst ` set (fold (\<lambda>row. AList.update (f row) (g row)) rows endpoints) = f ` set rows \<union> fst ` set endpoints"
  by (induction rows arbitrary: endpoints) (auto simp: dom_update)

lemma fold_update_distinct:
  "distinct (map fst endpoints) \<Longrightarrow>
   distinct (map fst (fold (\<lambda>row. AList.update (f row) (g row)) rows endpoints))"
  by (induction rows arbitrary: endpoints) (auto simp: distinct_update)

lemma fold_update_other:
  "\<forall>row\<in>set rows. f row \<noteq> k \<Longrightarrow>
   map_of (fold (\<lambda>row. AList.update (f row) (g row)) rows endpoints) k = map_of endpoints k"
  by (induction rows arbitrary: endpoints) (auto simp: update_conv')

lemma distinct_key_once:
  "distinct (map fst al) \<Longrightarrow> map_of al k = Some v \<Longrightarrow> filter (\<lambda>p. fst p = k) al = [(k, v)]"
proof (induction al)
  case Nil then show ?case by simp
next
  case (Cons p al)
  show ?case
  proof (cases "fst p = k")
    case True
    with Cons.prems have "p = (k, v)" by (cases p) auto
    moreover from True Cons.prems have "filter (\<lambda>q. fst q = k) al = []"
      by (auto simp: filter_empty_conv image_iff)
    ultimately show ?thesis by simp
  next
    case False
    with Cons show ?thesis by (cases p) auto
  qed
qed

text \<open>
  Claim C1, amended: for every table whose data rows have two fields, the load succeeds
  and its keys are exactly the display names lower-cased, with every space replaced by an
  underscore and every hyphen removed. So \<open>UniProt KB\<close> gives \<open>uniprot_kb\<close> and
  \<open>RDF Portal\<close> gives \<open>rdf_portal\<close>.
\<close>

theorem load_keys_underscore:
  assumes "\<forall>row\<in>set rows. length row = 2"
  shows "\<exists>endpoints. load_sparql_endpoints lower (header # rows) = Inr endpoints
           \<and> fst ` set endpoints = (\<lambda>row. underscore_key lower (hd row)) ` set rows"
  using load_rows_wf [OF assms, of lower "[]"]
  by (simp add: load_sparql_endpoints_def fold_update_keys)

theorem load_keys_underscore_witness:
  "list_all (\<lambda>row. length row = 2)
     [[ustr ''UniProt KB'', ustr ''https://example.org/sparql''],
      [ustr ''RDF Portal'', ustr ''https://rdfportal.org/sparql'']]
   \<and> (\<exists>endpoints.
         load_sparql_endpoints lower_ascii
           [[ustr ''name'', ustr ''url''], [ustr ''UniProt KB'', ustr ''https://example.org/sparql''],
            [ustr ''RDF Portal'', ustr ''https://rdfportal.org/sparql'']] = Inr endpoints
         \<and> fst ` set endpoints = {ustr ''uniprot_kb'', ustr ''rdf_portal''})"
proof -
  have k: "underscore_key lower_ascii (ustr ''UniProt KB'') = ustr ''uniprot_kb''"
    "underscore_key lower_ascii (ustr ''RDF Portal'') = ustr ''rdf_portal''"
    by code_simp+
  show ?thesis
    using load_keys_underscore
      [of "[[ustr ''UniProt KB'', ustr ''https://example.org/sparql''],
            [ustr ''RDF Portal'', ustr ''https://rdfportal.org/sparql'']]"
          lower_ascii "[ustr ''name'', ustr ''url'']"]
    by (simp add: k)
qed

text \<open>
  Claim C5: a data row whose number of fields is not two makes the whole load fail with
  the unpacking error; no mapping is returned, not even for the rows before it.
\<close>

theorem load_malformed_row_fails:
  assumes "row \<in> set rows" and "length row \<noteq> 2"
  shows "\<exists>n. n \<noteq> 2 \<and> load_sparql_endpoints lower (header # rows) = Inl (UnpackValueError n)"
  using load_rows_malformed [OF assms, of lower "[]"]
  by (simp add: load_sparql_endpoints_def)

theorem load_malformed_row_fails_witness:
  "[ustr ''ChEBI''] \<in> set [[ustr ''UniProt'', ustr ''https://a.example/sparql''], [ustr ''ChEBI'']]
   \<and> length [ustr ''ChEBI''] \<noteq> 2
   \<and> (\<exists>n. n \<noteq> 2 \<and>
         load_sparql_endpoints lower_ascii
           [[ustr ''name'', ustr ''url''], [ustr ''UniProt'', ustr ''https://a.example/sparql''],
            [ustr ''ChEBI'']]
           = Inl (UnpackValueError n))"
  using load_malformed_row_fails
    [of "[ustr ''ChEBI'']" "[[ustr ''UniProt'', ustr ''https://a.example/sparql''], [ustr ''ChEBI'']]"
        lower_ascii "[ustr ''name'', ustr ''url'']"]
  by simp

text \<open>
  Claim C6: when several rows give the same key, the load succeeds and the mapping holds
  that key exactly once, with the URL of the last such row. In the example the rows
  \<open>UniProt KB\<close> and \<open>UNI-PROT KB\<close> both give \<open>uniprot_kb\<close>.
\<close>

theorem load_duplicate_key_last_wins:
  assumes "\<forall>row\<in>set before. length row = 2"
    and "\<forall>row\<in>set after. length row = 2
           \<and> underscore_key lower (hd row) \<noteq> underscore_key lower db_name"
  shows "\<exists>endpoints.
           load_sparql_endpoints lower (header # before @ [db_name, endpoint_url] # after) = Inr endpoints
           \<and> filter (\<lambda>entry. fst entry = underscore_key lower db_name) endpoints
               = [(underscore_key lower db_name, endpoint_url)]"
proof -
  let ?f = "\<lambda>row. underscore_key lower (hd row)" and ?g = "\<lambda>row. row ! 1"
  let ?rows = "before @ [db_name, endpoint_url] # after"
  let ?al = "fold (\<lambda>row. AList.update (?f row) (?g row)) ?rows []"
  from assms have "\<forall>row\<in>set ?rows. length row = 2" by auto
  from load_rows_wf [OF this, of lower "[]"]
  have l: "load_sparql_endpoints lower (header # ?rows) = Inr ?al"
    by (simp add: load_sparql_endpoints_def)
  have d: "distinct (map fst ?al)" by (rule fold_update_distinct) simp
  from assms(2) have "\<forall>row\<in>set after. ?f row \<noteq> underscore_key lower db_name" by blast
  then have "map_of ?al (underscore_key lower db_name) = Some endpoint_url"
    by (simp add: fold_update_other update_conv')
  from distinct_key_once [OF d this] l show ?thesis by blast
qed

theorem load_duplicate_key_last_wins_witness:
  "underscore_key lower_ascii (ustr ''UniProt KB'') = underscore_key lower_ascii (ustr ''UNI-PROT KB'')
   \<and> list_all (\<lambda>row. length row = 2)
     [[ustr ''UniProt KB'', ustr ''https://first.example/sparql''],
      [ustr ''ChEBI'', ustr ''https://c.example/sparql'']]
   \<and> list_all (\<lambda>row. length row = 2
                     \<and> underscore_key lower_ascii (hd row) \<noteq> underscore_key lower_ascii (ustr ''UNI-PROT KB''))
       [[ustr ''PubChem'', ustr ''https://p.example/sparql'']]
   \<and> (\<exists>endpoints.
         load_sparql_endpoints lower_ascii
           [[ustr ''name'', ustr ''url''],
            [ustr ''UniProt KB'', ustr ''https://first.example/sparql''],
            [ustr ''ChEBI'', ustr ''https://c.example/sparql''],
            [ustr ''UNI-PROT KB'', ustr ''https://last.example/sparql''],
            [ustr ''PubChem'', ustr ''https://p.example/sparql'']] = Inr endpoints
         \<and> filter (\<lambda>entry. fst entry = ustr ''uniprot_kb'') endpoints
             = [(ustr ''uniprot_kb'', ustr ''https://last.example/sparql'')])"
proof -
  have k: "underscore_key lower_ascii (ustr ''UNI-PROT KB'') = ustr ''uniprot_kb''"
    "underscore_key lower_ascii (ustr ''UniProt KB'') = ustr ''uniprot_kb''"
    "underscore_key lower_ascii (ustr ''PubChem'') = ustr ''pubchem''"
    by code_simp+
  have n: "ustr ''pubchem'' \<noteq> ustr ''uniprot_kb''" by code_simp
  show ?thesis
    using load_duplicate_key_last_wins
      [of "[[ustr ''UniProt KB'', ustr ''https://first.example/sparql''],
            [ustr ''ChEBI'', ustr ''https://c.example/sparql'']]"
          "[[ustr ''PubChem'', ustr ''https://p.example/sparql'']]" lower_ascii "ustr ''UNI-PROT KB''"
          "[ustr ''name'', ustr ''url'']" "ustr ''https://last.example/sparql''"]
    by (simp add: k n)
qed





section \<open>Properties of the query executor and of the registry\<close>


text \<open>
  Claim C3: for a database key that is not in the endpoint table, the executor fails with
  the unknown-database error (\<open>ValueError("Unknown database: ...")\<close>) and the requests
  issued are those issued before: no request is sent and nothing changes.
\<close>

theorem execute_unknown_database:
  assumes "map_of SPARQL_ENDPOINT dbname = None"
  shows "execute_sparql SPARQL_ENDPOINT network sparql_query dbname sent
           = (Inl (ValueError (''Unknown database: '' @ dbname)), sent)"
  using assms by (simp add: execute_sparql_def)

theorem execute_unknown_database_witness:
  "map_of [(''uniprot'', ''https://example.org/sparql'')] ''chebi'' = None
   \<and> execute_sparql [(''uniprot'', ''https://example.org/sparql'')] (\<lambda>req. Response 200 ''s,p,o'')
         ''SELECT * WHERE {?s ?p ?o} LIMIT 1'' ''chebi'' []
       = (Inl (ValueError ''Unknown database: chebi''), [])"
  using execute_unknown_database [of "[(''uniprot'', ''https://example.org/sparql'')]" "''chebi''"
      "\<lambda>req. Response 200 ''s,p,o''" "''SELECT * WHERE {?s ?p ?o} LIMIT 1''" "[]"]
  by simp

text \<open>
  Claim C4: for a key of the endpoint table, the executor issues exactly one request, a
  \<open>POST\<close> to the URL of the table carrying the query text and the header
  \<open>Accept: text/csv\<close>; when the response has a success status, the text of the response
  is returned unchanged.
\<close>

theorem execute_known_database:
  assumes "map_of SPARQL_ENDPOINT dbname = Some endpoint"
  shows "snd (execute_sparql SPARQL_ENDPOINT network sparql_query dbname sent)
           = sent @ [\<lparr>http_method = ''POST'', url = endpoint, data = [(''query'', sparql_query)],
                       headers = [(''Accept'', ''text/csv'')]\<rparr>]
         \<and> (\<forall>status_code body.
               network \<lparr>http_method = ''POST'', url = endpoint, data = [(''query'', sparql_query)],
                         headers = [(''Accept'', ''text/csv'')]\<rparr> = Response status_code body
               \<and> is_success status_code
               \<longrightarrow> fst (execute_sparql SPARQL_ENDPOINT network sparql_query dbname sent) = Inr body)"
  using assms by (auto simp: execute_sparql_def Let_def split: reply.splits)

theorem execute_known_database_witness:
  "map_of [(''uniprot_kb'', ''https://example.org/sparql'')] ''uniprot_kb'' = Some ''https://example.org/sparql''
   \<and> (\<lambda>req. Response 200 ''s,p,o'')
        \<lparr>http_method = ''POST'', url = ''https://example.org/sparql'',
         data = [(''query'', ''SELECT * WHERE {?s ?p ?o} LIMIT 1'')],
         headers = [(''Accept'', ''text/csv'')]\<rparr> = Response 200 ''s,p,o''
   \<and> is_success 200
   \<and> execute_sparql [(''uniprot_kb'', ''https://example.org/sparql'')] (\<lambda>req. Response 200 ''s,p,o'')
         ''SELECT * WHERE {?s ?p ?o} LIMIT 1'' ''uniprot_kb'' []
       = (Inr ''s,p,o'',
          [\<lparr>http_method = ''POST'', url = ''https://example.org/sparql'',
            data = [(''query'', ''SELECT * WHERE {?s ?p ?o} LIMIT 1'')],
            headers = [(''Accept'', ''text/csv'')]\<rparr>])"
  using execute_known_database [of "[(''uniprot_kb'', ''https://example.org/sparql'')]" "''uniprot_kb''"
      "''https://example.org/sparql''" "\<lambda>req. Response 200 ''s,p,o''"
      "''SELECT * WHERE {?s ?p ?o} LIMIT 1''" "[]"]
  by (simp add: is_success_def prod_eq_iff)









lemma update_fresh: "map_of al k = None \<Longrightarrow> AList.update k v al = al @ [(k, v)]"
  by (induction al) (auto split: if_splits)

lemma merge_tools_fresh:
  assumes "\<And>r d. map_of r (name d) = None \<Longrightarrow> add_tool r d = Inr (r @ [(name d, d)])"
  shows "distinct (map (\<lambda>p. name (snd p)) batch) \<Longrightarrow>
   \<forall>p\<in>set batch. map_of mcp (name (snd p)) = None \<Longrightarrow>
   merge_tools add_tool mcp batch = (None, mcp @ map (\<lambda>p. (name (snd p), snd p)) batch)"
proof (induction batch arbitrary: mcp)
  case Nil then show ?case by simp
next
  case (Cons p batch)
  obtain key t where p: "p = (key, t)" by (cases p)
  from Cons.prems p have r: "add_tool mcp t = Inr (mcp @ [(name t, t)])"
    by (simp add: assms)
  have n: "name (snd q) \<noteq> name t" if "q \<in> set batch" for q
    using Cons.prems(1) p that by force
  have "\<forall>q\<in>set batch. map_of (mcp @ [(name t, t)]) (name (snd q)) = None"
    using Cons.prems(2) n by (simp add: map_add_def)
  moreover from Cons.prems have "distinct (map (\<lambda>p. name (snd p)) batch)" by simp
  ultimately have "merge_tools add_tool (mcp @ [(name t, t)]) batch
      = (None, (mcp @ [(name t, t)]) @ map (\<lambda>p. (name (snd p), snd p)) batch)"
    by (rule Cons.IH [rotated])
  with r p show ?case by simp
qed

lemma register_fresh: "map_of r (name d) = None \<Longrightarrow> register r d = Inr (r @ [(name d, d)])"
  by (simp add: register_def)

lemma add_tool_overwrite_fresh:
  "map_of r (name d) = None \<Longrightarrow> add_tool_overwrite r d = Inr (r @ [(name d, d)])"
  by (simp add: add_tool_overwrite_def update_fresh)

lemma from_openapi_self:
  "map (\<lambda>p. (name (snd p), snd p)) (from_openapi ops rm) = from_openapi ops rm"
  by (simp add: from_openapi_def Let_def)

lemma from_openapi_names:
  "map (\<lambda>p. name (snd p)) (from_openapi ops rm) = map fst (from_openapi ops rm)"
  by (simp add: from_openapi_def Let_def)

lemma from_openapi_entry:
  "(key, t) \<in> set (from_openapi ops rm) \<Longrightarrow>
   operation t \<in> set ops \<and> name t = key
   \<and> key = (case map_of rm (operation t) of Some alternate \<Rightarrow> alternate | None \<Rightarrow> operation t)"
  by (auto simp: from_openapi_def Let_def split: option.splits)

text \<open>
  Claim C7: when the rename map has an entry for an operation of the schema, the merge
  succeeds (with either registration, the generated names being free of collisions) and
  the tool generated for that operation is in the registry under the alternate name. A tool
  of that operation is under no other name, and no tool at all is under the operation
  identifier unless the rename map sends another operation of the schema to it.
\<close>

theorem renamed_tool_registered_under_alternate:
  assumes "distinct (map fst (from_openapi openapi_spec rename_map))"
    and "operation_id \<in> set openapi_spec"
    and "map_of rename_map operation_id = Some alternate"
  shows "\<exists>registry.
           merge_tools register [] (from_openapi openapi_spec rename_map) = (None, registry)
           \<and> merge_tools add_tool_overwrite [] (from_openapi openapi_spec rename_map) = (None, registry)
           \<and> map_of registry alternate
               = Some \<lparr>name = alternate, origin = SchemaGenerated, operation = operation_id\<rparr>
           \<and> (\<forall>key t. map_of registry key = Some t \<and> operation t = operation_id \<longrightarrow> key = alternate)
           \<and> ((\<forall>other\<in>set openapi_spec. map_of rename_map other \<noteq> Some operation_id)
                \<longrightarrow> map_of registry operation_id = None)"
proof -
  let ?reg = "from_openapi openapi_spec rename_map"
  let ?t = "\<lparr>name = alternate, origin = SchemaGenerated, operation = operation_id\<rparr>"
  have fresh: "distinct (map (\<lambda>p. name (snd p)) ?reg)" "\<forall>p\<in>set ?reg. map_of [] (name (snd p)) = None"
    by (simp_all add: from_openapi_names assms(1))
  have "merge_tools register [] ?reg = (None, [] @ map (\<lambda>p. (name (snd p), snd p)) ?reg)"
    using register_fresh fresh by (rule merge_tools_fresh)
  then have m: "merge_tools register [] ?reg = (None, ?reg)"
    by (simp add: from_openapi_self)
  have "merge_tools add_tool_overwrite [] ?reg = (None, [] @ map (\<lambda>p. (name (snd p), snd p)) ?reg)"
    using add_tool_overwrite_fresh fresh by (rule merge_tools_fresh)
  then have m': "merge_tools add_tool_overwrite [] ?reg = (None, ?reg)"
    by (simp add: from_openapi_self)
  from assms(2,3) have "(alternate, ?t) \<in> set ?reg"
    by (force simp: from_openapi_def Let_def)
  with assms(1) have a: "map_of ?reg alternate = Some ?t" by simp
  have b: "key = alternate" if "map_of ?reg key = Some t \<and> operation t = operation_id" for key t
  proof -
    from that have "(key, t) \<in> set ?reg" by (simp add: map_of_SomeD)
    from from_openapi_entry [OF this] that assms(3) show ?thesis by simp
  qed
  have c: "map_of ?reg operation_id = None"
    if h: "\<forall>other\<in>set openapi_spec. map_of rename_map other \<noteq> Some operation_id"
  proof (rule ccontr)
    assume "map_of ?reg operation_id \<noteq> None"
    then obtain t where "map_of ?reg operation_id = Some t" by blast
    then have "(operation_id, t) \<in> set ?reg" by (rule map_of_SomeD)
    from from_openapi_entry [OF this]
    have o: "operation t \<in> set openapi_spec"
      and k: "operation_id = (case map_of rename_map (operation t) of Some alternate \<Rightarrow> alternate
                               | None \<Rightarrow> operation t)"
      by simp_all
    show False
    proof (cases "map_of rename_map (operation t)")
      case None
      with k have "operation t = operation_id" by simp
      with None assms(3) show False by simp
    next
      case (Some a)
      with k have "map_of rename_map (operation t) = Some operation_id" by simp
      with h o show False by blast
    qed
  qed
  from m m' a b c show ?thesis by blast
qed

theorem renamed_tool_registered_under_alternate_witness:
  "distinct (map fst (from_openapi [''getAllDataset'', ''getDataset'', ''convertId''] mcp_names))
   \<and> ''getAllDataset'' \<in> set [''getAllDataset'', ''getDataset'', ''convertId'']
   \<and> map_of mcp_names ''getAllDataset'' = Some ''togoId_getAllDataset''
   \<and> list_all (\<lambda>other. map_of mcp_names other \<noteq> Some ''getAllDataset'')
       [''getAllDataset'', ''getDataset'', ''convertId'']
   \<and> (\<exists>registry.
         merge_tools register [] (from_openapi [''getAllDataset'', ''getDataset'', ''convertId''] mcp_names)
           = (None, registry)
         \<and> merge_tools add_tool_overwrite []
             (from_openapi [''getAllDataset'', ''getDataset'', ''convertId''] mcp_names)
           = (None, registry)
         \<and> map_of registry ''togoId_getAllDataset''
             = Some \<lparr>name = ''togoId_getAllDataset'', origin = SchemaGenerated, operation = ''getAllDataset''\<rparr>
         \<and> (\<forall>key t. map_of registry key = Some t \<and> operation t = ''getAllDataset''
               \<longrightarrow> key = ''togoId_getAllDataset'')
         \<and> map_of registry ''getAllDataset'' = None)"
  using renamed_tool_registered_under_alternate
    [of "[''getAllDataset'', ''getDataset'', ''convertId'']" mcp_names "''getAllDataset''" "''togoId_getAllDataset''"]
  by (simp add: from_openapi_def mcp_names_def Let_def)

section \<open>Properties of the API call and of the retry wrapper\<close>


lemma make_api_call_cases:
  "make_api_call cfg env args =
     (case create env (api_kwargs cfg args) of
        Returns response \<Rightarrow>
          Inr [(''success'', PBool True),
               (''text'', PStr (join [CHR 0x0A] (fst (scan_content (content response) [] [])))),
               (''tool_uses'', PList (snd (scan_content (content response) [] []))),
               (''elapsed_time'', PFloat (end_clock env - start_clock env)),
               (''stop_reason'', stop_reason response),
               (''usage'', PDict [(''input_tokens'', PInt (input_tokens response)),
                                  (''output_tokens'', PInt (output_tokens response))])]
      | Raises (Exception msg) \<Rightarrow>
          Inr [(''success'', PBool False), (''error'', PStr msg),
               (''elapsed_time'', PFloat (end_clock env - start_clock env))]
      | Raises (BaseException msg) \<Rightarrow> Inl (BaseException msg))"
  by (simp add: make_api_call_def Let_def split: outcome.splits py_exception.splits prod.splits)

text \<open>
  Claim C10 as stated fails: when the request raises \<open>KeyboardInterrupt\<close>, which is not an
  \<open>Exception\<close>, the handler does not catch it and no dictionary is returned. (The loop of
  \<open>run_all\<close> has an \<open>except KeyboardInterrupt\<close> clause for it.)
\<close>

theorem make_api_call_propagates_counterexample:
  "\<not> (\<exists>d. make_api_call (default_config 1) interrupted sample_args = Inr d)"
  by (simp add: make_api_call_cases interrupted_def)

text \<open>
  Claim C10, amended: when the request returns a response, the call returns a dictionary
  with exactly the keys \<open>success\<close>, \<open>text\<close>, \<open>tool_uses\<close>, \<open>elapsed_time\<close>, \<open>stop_reason\<close>
  and \<open>usage\<close>, with \<open>success\<close> true; when it raises an \<open>Exception\<close>, the call returns the
  dictionary of \<open>success\<close> false, the message of the exception under \<open>error\<close>, and
  \<open>elapsed_time\<close>; an exception that is not an \<open>Exception\<close> leaves the function.
\<close>

theorem make_api_call_returns_dict:
  "(\<forall>response. create env (api_kwargs cfg args) = Returns response \<longrightarrow>
      (\<exists>d. make_api_call cfg env args = Inr d
         \<and> map fst d = [''success'', ''text'', ''tool_uses'', ''elapsed_time'', ''stop_reason'', ''usage'']
         \<and> map_of d ''success'' = Some (PBool True)
         \<and> map_of d ''elapsed_time'' = Some (PFloat (end_clock env - start_clock env))))
   \<and> (\<forall>msg. create env (api_kwargs cfg args) = Raises (Exception msg) \<longrightarrow>
        make_api_call cfg env args
          = Inr [(''success'', PBool False), (''error'', PStr msg),
                 (''elapsed_time'', PFloat (end_clock env - start_clock env))])
   \<and> (\<forall>msg. create env (api_kwargs cfg args) = Raises (BaseException msg) \<longrightarrow>
        make_api_call cfg env args = Inl (BaseException msg))"
  by (simp add: make_api_call_cases)

lemma retry_loop_failed_prefix:
  "\<forall>j<length pre. failed_attempt cfg (envs (calls w + j)) args \<Longrightarrow>
   retry_loop cfg envs args (pre @ rest) result w
     = retry_loop cfg envs args rest
         (if pre = [] then result
          else Some (projr (make_api_call cfg (envs (calls w + length pre - 1)) args)))
         (w\<lparr>calls := calls w + length pre,
            events := events w @ concat (map (attempt_events cfg) pre)\<rparr>)"
proof (induction pre arbitrary: w result)
  case Nil
  then show ?case by simp
next
  case (Cons a pre)
  from Cons.prems have "failed_attempt cfg (envs (calls w + 0)) args" by blast
  then obtain d where d: "make_api_call cfg (envs (calls w)) args = Inr d"
    and s: "map_of d ''success'' = Some (PBool False)"
    by (auto simp: failed_attempt_def split: sum.splits)
  let ?w2 = "w\<lparr>calls := calls w + 1, events := events w @ attempt_events cfg a\<rparr>"
  have step: "retry_loop cfg envs args ((a # pre) @ rest) result w
      = retry_loop cfg envs args (pre @ rest) (Some d) ?w2"
    using d s by (simp add: attempt_events_def Let_def)
  have "\<forall>j<length pre. failed_attempt cfg (envs (calls ?w2 + j)) args"
  proof (intro allI impI)
    fix j assume "j < length pre"
    then have "Suc j < length (a # pre)" by simp
    with Cons.prems have "failed_attempt cfg (envs (calls w + Suc j)) args" by blast
    then show "failed_attempt cfg (envs (calls ?w2 + j)) args" by simp
  qed
  from Cons.IH [OF this, of "Some d"] step d show ?case
    by (cases "pre = []") simp_all
qed


lemma retry_loop_bound:
  "\<exists>tr. events (snd (retry_loop cfg envs args attempts result w)) = events w @ tr
        \<and> length (filter (\<lambda>e. e = ApiCall) tr) \<le> length attempts
        \<and> calls (snd (retry_loop cfg envs args attempts result w)) \<le> calls w + length attempts"
proof (induction attempts arbitrary: w result)
  case Nil
  then show ?case by (simp split: option.splits)
next
  case (Cons a attempts)
  let ?w1 = "w\<lparr>calls := calls w + 1, events := events w @ [ApiCall]\<rparr>"
  let ?w2 = "w\<lparr>calls := calls w + 1, events := events w @ attempt_events cfg a\<rparr>"
  have "(\<exists>res. retry_loop cfg envs args (a # attempts) result w = (res, ?w1))
      \<or> (\<exists>d. retry_loop cfg envs args (a # attempts) result w
             = retry_loop cfg envs args attempts (Some d) ?w2)"
  proof (cases "make_api_call cfg (envs (calls w)) args")
    case (Inl e)
    then show ?thesis by (simp add: Let_def)
  next
    case (Inr d)
    show ?thesis
    proof (cases "map_of d ''success''")
      case None
      with Inr show ?thesis by (simp add: Let_def)
    next
      case (Some v)
      show ?thesis
      proof (cases "truthy v")
        case True
        with Inr Some show ?thesis by (simp add: Let_def)
      next
        case False
        with Inr Some have "retry_loop cfg envs args (a # attempts) result w
            = retry_loop cfg envs args attempts (Some d) ?w2"
          by (simp add: Let_def attempt_events_def)
        then show ?thesis by blast
      qed
    qed
  qed
  then consider (stop) res where "retry_loop cfg envs args (a # attempts) result w = (res, ?w1)"
    | (continue) d where "retry_loop cfg envs args (a # attempts) result w
        = retry_loop cfg envs args attempts (Some d) ?w2"
    by blast
  then show ?case
  proof cases
    case stop
    then show ?thesis by simp
  next
    case continue
    from Cons.IH [of "Some d" ?w2] obtain tr where
      e: "events (snd (retry_loop cfg envs args attempts (Some d) ?w2)) = events ?w2 @ tr"
      and l: "length (filter (\<lambda>e. e = ApiCall) tr) \<le> length attempts"
      and c: "calls (snd (retry_loop cfg envs args attempts (Some d) ?w2)) \<le> calls ?w2 + length attempts"
      by blast
    have "length (filter (\<lambda>e. e = ApiCall) (attempt_events cfg a @ tr)) \<le> length (a # attempts)"
      using l by (simp add: attempt_events_def)
    moreover have "events (snd (retry_loop cfg envs args (a # attempts) result w))
        = events w @ (attempt_events cfg a @ tr)"
      using continue e by simp
    moreover have "calls (snd (retry_loop cfg envs args (a # attempts) result w))
        \<le> calls w + length (a # attempts)"
      using continue c by simp
    ultimately show ?thesis by blast
  qed
qed

lemma attempt_events_early:
  "k \<le> nat (retry_attempts cfg) - 1 \<Longrightarrow>
   concat (map (attempt_events cfg) [0..<k]) @ [ApiCall] = retry_trace cfg k"
proof -
  assume k: "k \<le> nat (retry_attempts cfg) - 1"
  have "map (attempt_events cfg) [0..<k]
      = map (\<lambda>i. [ApiCall, Print (i + 1), Sleep (retry_delay cfg)]) [0..<k]"
    using k by (intro map_cong) (auto simp: attempt_events_def)
  then show ?thesis by (simp only: retry_trace_def)
qed

lemma run_with_retry_first_success:
  assumes k: "k < nat (retry_attempts cfg)"
    and f: "\<forall>i<k. failed_attempt cfg (envs (calls w + i)) args"
    and r: "make_api_call cfg (envs (calls w + k)) args = Inr r"
    and s: "map_of r ''success'' = Some (PBool True)"
  shows "run_with_retry cfg envs args w
           = (Inr r, w\<lparr>calls := calls w + k + 1, events := events w @ retry_trace cfg k\<rparr>)"
proof -
  let ?n = "nat (retry_attempts cfg)"
  from k have "[0..<?n] = [0..<k] @ k # [Suc k..<?n]"
    using upt_add_eq_append [of 0 k "?n - k"] by (simp add: upt_conv_Cons)
  moreover from f have "\<forall>j<length [0..<k]. failed_attempt cfg (envs (calls w + j)) args" by simp
  note retry_loop_failed_prefix [OF this, of "k # [Suc k..<?n]" None]
  moreover from k have "k \<le> ?n - 1" by simp
  note attempt_events_early [OF this]
  ultimately show ?thesis
    using r s by (simp add: run_with_retry_def Let_def)
qed

lemma run_with_retry_all_failed:
  assumes n: "0 < retry_attempts cfg"
    and f: "\<forall>i<nat (retry_attempts cfg). failed_attempt cfg (envs (calls w + i)) args"
  shows "\<exists>r. make_api_call cfg (envs (calls w + nat (retry_attempts cfg) - 1)) args = Inr r
           \<and> map_of r ''success'' = Some (PBool False)
           \<and> run_with_retry cfg envs args w
               = (Inr r, w\<lparr>calls := calls w + nat (retry_attempts cfg),
                              events := events w @ retry_trace cfg (nat (retry_attempts cfg) - 1)\<rparr>)"
proof -
  let ?n = "nat (retry_attempts cfg)"
  from n obtain m where m: "?n = Suc m" by (cases ?n) auto
  from f m have "failed_attempt cfg (envs (calls w + m)) args" by simp
  then obtain r where r: "make_api_call cfg (envs (calls w + m)) args = Inr r"
    and s: "map_of r ''success'' = Some (PBool False)"
    by (auto simp: failed_attempt_def split: sum.splits)
  from f have "\<forall>j<length [0..<?n]. failed_attempt cfg (envs (calls w + j)) args" by simp
  from retry_loop_failed_prefix [OF this, of "[]" None]
  have "run_with_retry cfg envs args w
      = (Inr r, w\<lparr>calls := calls w + ?n, events := events w @ concat (map (attempt_events cfg) [0..<?n])\<rparr>)"
    using m r by (simp add: run_with_retry_def)
  moreover have "concat (map (attempt_events cfg) [0..<?n]) = retry_trace cfg m"
  proof -
    have "\<not> int m < retry_attempts cfg - 1" using m by linarith
    then have "attempt_events cfg m = [ApiCall]" by (simp add: attempt_events_def)
    moreover have "m \<le> ?n - 1" using m by simp
    note attempt_events_early [OF this]
    ultimately show ?thesis using m by simp
  qed
  ultimately show ?thesis using m r s by simp
qed


theorem make_api_call_returns_dict_witness:
  "create (overloaded_until 0 0) (api_kwargs (default_config 1) sample_args) = Returns sample_response
   \<and> (\<exists>d. make_api_call (default_config 1) (overloaded_until 0 0) sample_args = Inr d
         \<and> map fst d = [''success'', ''text'', ''tool_uses'', ''elapsed_time'', ''stop_reason'', ''usage'']
         \<and> map_of d ''success'' = Some (PBool True)
         \<and> map_of d ''elapsed_time'' = Some (PFloat 2))
   \<and> create (overloaded_until 1 0) (api_kwargs (default_config 1) sample_args) = Raises (Exception ''overloaded'')
   \<and> make_api_call (default_config 1) (overloaded_until 1 0) sample_args
       = Inr [(''success'', PBool False), (''error'', PStr ''overloaded''), (''elapsed_time'', PFloat 2)]
   \<and> create interrupted (api_kwargs (default_config 1) sample_args) = Raises (BaseException ''KeyboardInterrupt'')
   \<and> make_api_call (default_config 1) interrupted sample_args = Inl (BaseException ''KeyboardInterrupt'')"
  using make_api_call_returns_dict [of "overloaded_until 0 0" "default_config 1" sample_args]
    make_api_call_returns_dict [of "overloaded_until 1 0" "default_config 1" sample_args]
    make_api_call_returns_dict [of interrupted "default_config 1" sample_args]
  by (simp add: overloaded_until_def interrupted_def)

text \<open>
  Claim C8: the retry wrapper makes at most \<open>retry_attempts\<close> calls. When the first
  successful call is call \<open>k\<close> (counted from zero, below \<open>retry_attempts\<close>), its result is
  returned and the events are those of \<open>retry_trace cfg k\<close>: each of the \<open>k\<close> failed calls
  followed by the notice and a sleep of \<open>retry_delay\<close>, then the successful call and nothing
  after it. When all \<open>retry_attempts\<close> calls fail (at least one being made), the failed
  result of the last call is returned after \<open>retry_attempts - 1\<close> sleeps, none after the
  last call.
\<close>

theorem run_with_retry_bounded:
  "(\<exists>tr. events (snd (run_with_retry cfg envs args w)) = events w @ tr
         \<and> length (filter (\<lambda>e. e = ApiCall) tr) \<le> nat (retry_attempts cfg))
   \<and> (\<forall>k r. k < nat (retry_attempts cfg)
            \<and> (\<forall>i<k. failed_attempt cfg (envs (calls w + i)) args)
            \<and> make_api_call cfg (envs (calls w + k)) args = Inr r
            \<and> map_of r ''success'' = Some (PBool True)
          \<longrightarrow> run_with_retry cfg envs args w
                = (Inr r, w\<lparr>calls := calls w + k + 1, events := events w @ retry_trace cfg k\<rparr>))
   \<and> (0 < retry_attempts cfg
        \<and> (\<forall>i<nat (retry_attempts cfg). failed_attempt cfg (envs (calls w + i)) args)
      \<longrightarrow> (\<exists>r. make_api_call cfg (envs (calls w + nat (retry_attempts cfg) - 1)) args = Inr r
                \<and> map_of r ''success'' = Some (PBool False)
                \<and> run_with_retry cfg envs args w
                    = (Inr r, w\<lparr>calls := calls w + nat (retry_attempts cfg),
                                   events := events w @ retry_trace cfg (nat (retry_attempts cfg) - 1)\<rparr>)))"
proof (intro conjI allI impI)
  from retry_loop_bound [of cfg envs args "[0..<nat (retry_attempts cfg)]" None w]
  show "\<exists>tr. events (snd (run_with_retry cfg envs args w)) = events w @ tr
         \<and> length (filter (\<lambda>e. e = ApiCall) tr) \<le> nat (retry_attempts cfg)"
    by (auto simp: run_with_retry_def)
next
  fix k r
  assume "k < nat (retry_attempts cfg)
            \<and> (\<forall>i<k. failed_attempt cfg (envs (calls w + i)) args)
            \<and> make_api_call cfg (envs (calls w + k)) args = Inr r
            \<and> map_of r ''success'' = Some (PBool True)"
  then show "run_with_retry cfg envs args w
      = (Inr r, w\<lparr>calls := calls w + k + 1, events := events w @ retry_trace cfg k\<rparr>)"
    using run_with_retry_first_success [of k cfg envs w args r] by blast
next
  assume "0 < retry_attempts cfg
        \<and> (\<forall>i<nat (retry_attempts cfg). failed_attempt cfg (envs (calls w + i)) args)"
  then show "\<exists>r. make_api_call cfg (envs (calls w + nat (retry_attempts cfg) - 1)) args = Inr r
                \<and> map_of r ''success'' = Some (PBool False)
                \<and> run_with_retry cfg envs args w
                    = (Inr r, w\<lparr>calls := calls w + nat (retry_attempts cfg),
                                   events := events w @ retry_trace cfg (nat (retry_attempts cfg) - 1)\<rparr>)"
    using run_with_retry_all_failed [of cfg envs w args] by blast
qed


theorem run_with_retry_bounded_witness:
  "failed_attempt (default_config 1) (overloaded_until 2 0) sample_args
   \<and> failed_attempt (default_config 1) (overloaded_until 2 1) sample_args
   \<and> run_with_retry (default_config 1) (overloaded_until 2) sample_args \<lparr>calls = 0, events = []\<rparr>
       = (Inr [(''success'', PBool True),
               (''text'', PStr (''A protein'' @ [CHR 0x0A] @ ''database.'')),
               (''tool_uses'', PList [PDict [(''name'', PStr ''search''),
                                             (''input'', PDict [(''q'', PStr ''uniprot'')])]]),
               (''elapsed_time'', PFloat 2),
               (''stop_reason'', PStr ''end_turn''),
               (''usage'', PDict [(''input_tokens'', PInt 12), (''output_tokens'', PInt 5)])],
          \<lparr>calls = 3,
           events = [ApiCall, Print 1, Sleep (PInt 2), ApiCall, Print 2, Sleep (PInt 2), ApiCall]\<rparr>)
   \<and> failed_attempt (default_config 1) (overloaded_until 5 2) sample_args
   \<and> run_with_retry (default_config 1) (overloaded_until 5) sample_args \<lparr>calls = 0, events = []\<rparr>
       = (Inr [(''success'', PBool False), (''error'', PStr ''overloaded''), (''elapsed_time'', PFloat 2)],
          \<lparr>calls = 3,
           events = [ApiCall, Print 1, Sleep (PInt 2), ApiCall, Print 2, Sleep (PInt 2), ApiCall]\<rparr>)"
proof -
  let ?cfg = "default_config (1::int)"
  let ?w = "\<lparr>calls = 0, events = []\<rparr> :: int world"
  let ?ok = "[(''success'', PBool True),
               (''text'', PStr (''A protein'' @ [CHR 0x0A] @ ''database.'')),
               (''tool_uses'', PList [PDict [(''name'', PStr ''search''),
                                             (''input'', PDict [(''q'', PStr ''uniprot'')])]]),
               (''elapsed_time'', PFloat (2::int)),
               (''stop_reason'', PStr ''end_turn''),
               (''usage'', PDict [(''input_tokens'', PInt 12), (''output_tokens'', PInt 5)])]"
  let ?ko = "[(''success'', PBool False), (''error'', PStr ''overloaded''), (''elapsed_time'', PFloat (2::int))]"
  have n: "retry_attempts ?cfg = 3" by (simp add: default_config_def)
  have f: "failed_attempt ?cfg (overloaded_until m i) sample_args" if "i < m" for m i
    using that by (simp add: failed_attempt_def make_api_call_cases overloaded_until_def)
  have ko: "make_api_call ?cfg (overloaded_until m i) sample_args = Inr ?ko" if "i < m" for m i
    using that by (simp add: make_api_call_cases overloaded_until_def)
  have ok: "make_api_call ?cfg (overloaded_until 2 2) sample_args = Inr ?ok"
    by (simp add: make_api_call_cases overloaded_until_def sample_response_def)
  have t: "retry_trace ?cfg 2 = [ApiCall, Print 1, Sleep (PInt 2), ApiCall, Print 2, Sleep (PInt 2), ApiCall]"
    by (simp add: retry_trace_def default_config_def numeral_2_eq_2)
  note flaky = run_with_retry_bounded [of ?cfg "overloaded_until 2" sample_args ?w]
  note down = run_with_retry_bounded [of ?cfg "overloaded_until 5" sample_args ?w]
  have "(2::nat) < nat (retry_attempts ?cfg)" using n by simp
  moreover have "\<forall>i<2. failed_attempt ?cfg (overloaded_until 2 (calls ?w + i)) sample_args"
    using f by simp
  moreover have "calls ?w + 2 = 2" by simp
  then have "make_api_call ?cfg (overloaded_until 2 (calls ?w + 2)) sample_args = Inr ?ok"
    using ok by (simp only:)
  moreover have "map_of ?ok ''success'' = Some (PBool True)" by simp
  ultimately have "(2::nat) < nat (retry_attempts ?cfg)
      \<and> (\<forall>i<2. failed_attempt ?cfg (overloaded_until 2 (calls ?w + i)) sample_args)
      \<and> make_api_call ?cfg (overloaded_until 2 (calls ?w + 2)) sample_args = Inr ?ok
      \<and> map_of ?ok ''success'' = Some (PBool True)"
    by (intro conjI)
  with flaky have "run_with_retry ?cfg (overloaded_until 2) sample_args ?w
      = (Inr ?ok, ?w\<lparr>calls := calls ?w + 2 + 1, events := events ?w @ retry_trace ?cfg 2\<rparr>)"
    by blast
  then have a: "run_with_retry ?cfg (overloaded_until 2) sample_args ?w
      = (Inr ?ok, \<lparr>calls = 3, events = [ApiCall, Print 1, Sleep (PInt 2), ApiCall, Print 2, Sleep (PInt 2), ApiCall]\<rparr>)"
    by (simp add: t)
  have "0 < retry_attempts ?cfg
      \<and> (\<forall>i<nat (retry_attempts ?cfg). failed_attempt ?cfg (overloaded_until 5 (calls ?w + i)) sample_args)"
    using n f by simp
  with down obtain r where
    "make_api_call ?cfg (overloaded_until 5 (calls ?w + nat (retry_attempts ?cfg) - 1)) sample_args = Inr r"
    "run_with_retry ?cfg (overloaded_until 5) sample_args ?w
       = (Inr r, ?w\<lparr>calls := calls ?w + nat (retry_attempts ?cfg),
                      events := events ?w @ retry_trace ?cfg (nat (retry_attempts ?cfg) - 1)\<rparr>)"
    by blast
  then have b: "run_with_retry ?cfg (overloaded_until 5) sample_args ?w
      = (Inr ?ko, \<lparr>calls = 3, events = [ApiCall, Print 1, Sleep (PInt 2), ApiCall, Print 2, Sleep (PInt 2), ApiCall]\<rparr>)"
    using ko [of 2 5] by (simp add: n t)
  from a b f [of 0 2] f [of 1 2] f [of 2 5] show ?thesis by simp
qed

end
